theory Spec2Isabelle
  imports Complex_Main "HOL-Library.Sublist"
begin

section \<open>JavaScript strings and values\<close>

text \<open>
  Strings are modelled as \<^typ>\<open>string\<close>, one \<^typ>\<open>char\<close> per code unit; the recorder's
  selectors, keywords, header names and URLs are ASCII, and case conversion is the ASCII
  one. An optional field (\<^verbatim>\<open>selector?: string\<close>) is an \<^typ>\<open>string option\<close>, with
  \<^term>\<open>None\<close> for \<^verbatim>\<open>undefined\<close>.
\<close>

definition lower_char :: "char \<Rightarrow> char" where
  "lower_char c =
     (let n = (of_char c :: nat) in if 65 \<le> n \<and> n \<le> 90 then char_of (n + 32) else c)"

definition upper_char :: "char \<Rightarrow> char" where
  "upper_char c =
     (let n = (of_char c :: nat) in if 97 \<le> n \<and> n \<le> 122 then char_of (n - 32) else c)"

definition toLowerCase :: "string \<Rightarrow> string" where
  "toLowerCase s = map lower_char s"

definition toUpperCase :: "string \<Rightarrow> string" where
  "toUpperCase s = map upper_char s"

text \<open>\<^verbatim>\<open>s.includes(sub)\<close>: some suffix of \<open>s\<close> starts with \<open>sub\<close>.\<close>

fun includes_str :: "string \<Rightarrow> string \<Rightarrow> bool" where
  "includes_str [] sub = (sub = [])"
| "includes_str (c # cs) sub = (prefix sub (c # cs) \<or> includes_str cs sub)"

text \<open>Truthiness of an optional string: \<^verbatim>\<open>undefined\<close> and \<^verbatim>\<open>''\<close> are falsy.\<close>

fun truthy :: "string option \<Rightarrow> bool" where
  "truthy None = False"
| "truthy (Some s) = (s \<noteq> [])"

text \<open>\<^verbatim>\<open>a || b\<close> on optional strings.\<close>

definition js_or :: "string option \<Rightarrow> string option \<Rightarrow> string option" where
  "js_or a b = (if truthy a then a else b)"

text \<open>\<^verbatim>\<open>`${x}`\<close>: an absent value prints as \<^verbatim>\<open>undefined\<close>.\<close>

fun template :: "string option \<Rightarrow> string" where
  "template None = ''undefined''"
| "template (Some s) = s"

text \<open>\<^verbatim>\<open>x || ''\<close>.\<close>

fun or_empty :: "string option \<Rightarrow> string" where
  "or_empty None = []"
| "or_empty (Some s) = s"

text \<open>
  \<^verbatim>\<open>s.split(c)\<close> for a one-character separator: the pieces between the occurrences of
  \<open>c\<close>, in order.
\<close>

fun split :: "char \<Rightarrow> string \<Rightarrow> string list" where
  "split c [] = [[]]"
| "split c (x # xs) =
     (if x = c then [] # split c xs
      else (case split c xs of [] \<Rightarrow> [[x]] | p # ps \<Rightarrow> (x # p) # ps))"

text \<open>
  \<^verbatim>\<open>s.replace(/\/$/, '')\<close>: the regular expression is tried at each position from the
  left; it matches where a \<^verbatim>\<open>/\<close> is followed by the end of the input (no \<^verbatim>\<open>m\<close> flag), and
  the first match is replaced by the empty string.
\<close>

fun replace_trailing_slash :: "string \<Rightarrow> string" where
  "replace_trailing_slash [] = []"
| "replace_trailing_slash (c # cs) =
     (if c = CHR ''/'' \<and> cs = [] then [] else c # replace_trailing_slash cs)"

datatype js_error = TypeError

section \<open>The platform's URL parser\<close>

text \<open>
  \<^verbatim>\<open>new URL(url)\<close> is the platform's parser (the WHATWG URL standard), not code of this
  repository. The optimizer reads three things of the parsed object: \<^verbatim>\<open>origin\<close>,
  \<^verbatim>\<open>pathname\<close> and the entries of \<^verbatim>\<open>searchParams\<close>.
\<close>

record url_obj =
  origin :: string
  pathname :: string
  searchParams :: "(string \<times> string) list"

type_synonym url_parser = "string \<Rightarrow> url_obj option"

text \<open>
  The parser is called without a base URL, so an input needs a scheme, which ends at a
  \<^verbatim>\<open>:\<close>; for an input with no \<^verbatim>\<open>:\<close> at all the constructor throws. What it does with
  the other inputs is the parameter \<open>absolute\<close> (\<^term>\<open>None\<close> where it throws).
\<close>

definition URL_new :: "url_parser \<Rightarrow> url_parser" where
  "URL_new absolute url = (if CHR '':'' \<in> set url then absolute url else None)"

section \<open>DataOptimizer.normalizeUrl\<close>

text \<open>
  \<^verbatim>\<open>
  try {
    const urlObj = new URL(url);
    return `${urlObj.origin}${urlObj.pathname}`.replace(/\/$/, '');
  } catch {
    return url.split('?')[0].replace(/\/$/, '');
  }
  \<close>
  Reading element 0 of an empty array would give \<^verbatim>\<open>undefined\<close>, and the call of
  \<^verbatim>\<open>replace\<close> on it would throw out of the \<^verbatim>\<open>catch\<close> block.
\<close>

definition normalizeUrl :: "url_parser \<Rightarrow> string \<Rightarrow> js_error + string" where
  "normalizeUrl absolute url =
     (case URL_new absolute url of
        Some urlObj \<Rightarrow> Inr (replace_trailing_slash (origin urlObj @ pathname urlObj))
      | None \<Rightarrow>
          (case split (CHR ''?'') url of
             [] \<Rightarrow> Inl TypeError
           | p # _ \<Rightarrow> Inr (replace_trailing_slash p)))"

section \<open>The recorded data (types/index.ts)\<close>

datatype action_type = Click | Input | Navigate | Wallet | Wait | Submit

fun type_name :: "action_type \<Rightarrow> string" where
  "type_name Click = ''click''"
| "type_name Input = ''input''"
| "type_name Navigate = ''navigate''"
| "type_name Wallet = ''wallet''"
| "type_name Wait = ''wait''"
| "type_name Submit = ''submit''"

text \<open>
  The element snapshot of an action; of its fields, those the optimizer reads. An object
  with string values (\<^verbatim>\<open>Record<string, string>\<close>) is the list of its entries, in the
  order of \<^verbatim>\<open>Object.entries\<close>.
\<close>

record element =
  el_tag :: string
  el_text :: "string option"
  el_placeholder :: "string option"
  el_type :: "string option"
  el_className :: "string option"
  el_name :: "string option"
  el_role :: "string option"
  el_innerHTML :: "string option"
  el_attributes :: "(string \<times> string) list option"

text \<open>
  Timestamps are milliseconds (\<^verbatim>\<open>Date.now()\<close> and differences of such), integers. The
  flag \<^verbatim>\<open>isAmountInput\<close> is read for its truthiness only.
\<close>

record RecordedAction =
  a_id :: string
  a_type :: action_type
  a_timestamp :: int
  a_selector :: "string option"
  a_url :: "string option"
  a_value :: "string option"
  a_element :: "element option"
  a_walletMethod :: "string option"
  a_isAmountInput :: bool

record response =
  resp_status :: int
  resp_headers :: "(string \<times> string) list option"

record NetworkRequest =
  r_url :: string
  r_method :: string
  r_headers :: "(string \<times> string) list option"
  r_response :: "response option"

record Recording =
  rec_url :: string
  rec_duration :: int
  rec_actions :: "RecordedAction list"
  rec_networkRequests :: "NetworkRequest list"

section \<open>DataOptimizer: pass 1, removeDuplicates\<close>

definition duplicateThreshold :: int where
  "duplicateThreshold = 1000"

text \<open>\<^verbatim>\<open>`${action.type}_${action.selector || action.url || action.value}`\<close>\<close>

definition generateActionKey :: "RecordedAction \<Rightarrow> string" where
  "generateActionKey action =
     type_name (a_type action) @ ''_'' @
     template (js_or (js_or (a_selector action) (a_url action)) (a_value action))"

record dedup_state =
  uniqueActions :: "RecordedAction list"
  actionMap :: "string \<rightharpoonup> RecordedAction"
  duplicatesRemoved :: nat

definition dedup_keep :: "dedup_state \<Rightarrow> string \<Rightarrow> RecordedAction \<Rightarrow> dedup_state" where
  "dedup_keep st key action =
     st\<lparr>actionMap := (actionMap st)(key \<mapsto> action),
        uniqueActions := uniqueActions st @ [action]\<rparr>"

text \<open>
  The body of the loop:
  \<^verbatim>\<open>if (!existing || (action.timestamp - existing.timestamp) > this.duplicateThreshold)\<close>
  keeps the action, the other branch counts a duplicate.
\<close>

definition removeDuplicates_step :: "dedup_state \<Rightarrow> RecordedAction \<Rightarrow> dedup_state" where
  "removeDuplicates_step st action =
     (let key = generateActionKey action in
      case actionMap st key of
        None \<Rightarrow> dedup_keep st key action
      | Some existing \<Rightarrow>
          if a_timestamp action - a_timestamp existing > duplicateThreshold
          then dedup_keep st key action
          else st\<lparr>duplicatesRemoved := duplicatesRemoved st + 1\<rparr>)"

definition dedup_init :: dedup_state where
  "dedup_init = \<lparr>uniqueActions = [], actionMap = Map.empty, duplicatesRemoved = 0\<rparr>"

definition removeDuplicates :: "RecordedAction list \<Rightarrow> dedup_state" where
  "removeDuplicates actions = foldl removeDuplicates_step dedup_init actions"

section \<open>DataOptimizer: pass 2, extractEnhancedSwapFlow\<close>

datatype swap_kind = SELECT_FROM | SELECT_TO | INPUT_AMOUNT | CLICK_SWAP | APPROVE | CONFIRM

record metadata =
  tokenAddress :: "string option"
  tokenSymbol :: "string option"
  amount :: "string option"
  price :: "string option"
  slippage :: "string option"

record SwapAction =
  s_id :: nat
  s_action :: swap_kind
  s_value :: "string option"
  s_selector :: "string option"
  s_timestamp :: "int option"
  s_metadata :: "metadata option"

text \<open>\<^verbatim>\<open>x?.includes(k)\<close> and \<^verbatim>\<open>x?.toLowerCase().includes(k)\<close> as conditions.\<close>

fun opt_includes :: "string option \<Rightarrow> string \<Rightarrow> bool" where
  "opt_includes None k = False"
| "opt_includes (Some s) k = includes_str s k"

fun opt_lower_includes :: "string option \<Rightarrow> string \<Rightarrow> bool" where
  "opt_lower_includes None k = False"
| "opt_lower_includes (Some s) k = includes_str (toLowerCase s) k"

definition isEnhancedTokenSelection :: "RecordedAction \<Rightarrow> string \<Rightarrow> bool" where
  "isEnhancedTokenSelection action text =
     (a_type action = Click \<and>
      (includes_str text ''select token'' \<or>
       includes_str text ''choose token'' \<or>
       includes_str text ''token'' \<or>
       opt_includes (Option.bind (a_element action) el_className) ''token-select'' \<or>
       opt_includes (Option.bind (a_element action) el_className) ''token-button'' \<or>
       Option.bind (a_element action) el_role = Some ''token-selector'' \<or>
       includes_str (or_empty (Option.bind (a_element action) el_innerHTML)) ''token-symbol'' \<or>
       includes_str (or_empty (Option.bind (a_element action) el_innerHTML)) ''token-address''))"

text \<open>
  The regular expression \<^verbatim>\<open>/\b(ETH|BTC|...|SUSHI)\b/i\<close>: tried at each position from the
  left; at a position, a word boundary, then the alternatives in their order, each
  followed by a word boundary. The result is the text of group 1 of the first match.
\<close>

definition token_symbols :: "string list" where
  "token_symbols =
     [''ETH'', ''BTC'', ''USDT'', ''USDC'', ''DAI'', ''WETH'', ''BNB'', ''MATIC'', ''SOL'', ''ADA'',
      ''DOT'', ''LINK'', ''UNI'', ''AAVE'', ''COMP'', ''MKR'', ''YFI'', ''CRV'', ''BAL'', ''SUSHI'']"

definition is_word_char :: "char \<Rightarrow> bool" where
  "is_word_char c =
     (let n = (of_char c :: nat) in
      (48 \<le> n \<and> n \<le> 57) \<or> (65 \<le> n \<and> n \<le> 90) \<or> n = 95 \<or> (97 \<le> n \<and> n \<le> 122))"

fun is_word_opt :: "char option \<Rightarrow> bool" where
  "is_word_opt None = False"
| "is_word_opt (Some c) = is_word_char c"

definition word_boundary :: "char option \<Rightarrow> char option \<Rightarrow> bool" where
  "word_boundary before after = (is_word_opt before \<noteq> is_word_opt after)"

fun first_char :: "string \<Rightarrow> char option" where
  "first_char [] = None"
| "first_char (c # cs) = Some c"

definition last_char :: "string \<Rightarrow> char option" where
  "last_char s = first_char (rev s)"

definition alt_matches :: "string \<Rightarrow> string \<Rightarrow> bool" where
  "alt_matches s alt =
     (length alt \<le> length s \<and> toUpperCase (take (length alt) s) = alt \<and>
      word_boundary (last_char (take (length alt) s)) (first_char (drop (length alt) s)))"

definition token_match_here :: "char option \<Rightarrow> string \<Rightarrow> string option" where
  "token_match_here before s =
     (if word_boundary before (first_char s)
      then (case filter (alt_matches s) token_symbols of
              [] \<Rightarrow> None
            | alt # _ \<Rightarrow> Some (take (length alt) s))
      else None)"

fun token_match_from :: "char option \<Rightarrow> string \<Rightarrow> string option" where
  "token_match_from before [] = token_match_here before []"
| "token_match_from before (c # cs) =
     (case token_match_here before (c # cs) of
        Some m \<Rightarrow> Some m
      | None \<Rightarrow> token_match_from (Some c) cs)"

definition token_match :: "string \<Rightarrow> string option" where
  "token_match s = token_match_from None s"

record token_info =
  ti_address :: string
  ti_symbol :: string
  ti_amount :: "string option"

fun token_attribute :: "(string \<times> string) list \<Rightarrow> token_info option" where
  "token_attribute [] = None"
| "token_attribute ((key, v) # rest) =
     (if includes_str key ''token'' \<or> includes_str key ''symbol'' \<or> includes_str key ''address''
      then Some \<lparr>ti_address = v, ti_symbol = toUpperCase (take 6 v), ti_amount = None\<rparr>
      else token_attribute rest)"

definition matched_token :: "string \<Rightarrow> token_info" where
  "matched_token m = \<lparr>ti_address = ''0x0'', ti_symbol = toUpperCase m, ti_amount = None\<rparr>"

definition extractEnhancedTokenInfo :: "RecordedAction \<Rightarrow> token_info option" where
  "extractEnhancedTokenInfo action =
     (case a_element action of
        None \<Rightarrow> None
      | Some element \<Rightarrow>
          (case Option.bind (el_text element) token_match of
             Some m \<Rightarrow> Some (matched_token m)
           | None \<Rightarrow>
               (case Option.bind (el_attributes element) token_attribute of
                  Some tokenInfo \<Rightarrow> Some tokenInfo
                | None \<Rightarrow>
                    (case Option.bind (el_innerHTML element) token_match of
                       Some m \<Rightarrow> Some (matched_token m)
                     | None \<Rightarrow> None))))"

text \<open>The loop of determineTokenDirection over the nearby actions.\<close>

fun direction_scan :: "RecordedAction list \<Rightarrow> swap_kind option" where
  "direction_scan [] = None"
| "direction_scan (action # rest) =
     (let text = toLowerCase (or_empty (Option.bind (a_element action) el_text)) in
      if includes_str text ''from'' \<or> includes_str text ''pay'' \<or>
         includes_str text ''sell'' \<or> includes_str text ''input''
      then Some SELECT_FROM
      else if includes_str text ''to'' \<or> includes_str text ''receive'' \<or>
              includes_str text ''buy'' \<or> includes_str text ''output''
      then Some SELECT_TO
      else direction_scan rest)"

text \<open>
  \<open>index\<close> is \<^verbatim>\<open>actions.indexOf(currentAction)\<close>, the position of the action in the
  loop of extractEnhancedSwapFlow (the actions of a list are distinct objects);
  \<^verbatim>\<open>actions.slice(Math.max(0, index - 5), Math.min(actions.length, index + 5))\<close> is the
  neighbourhood scanned.
\<close>

definition determineTokenDirection ::
    "RecordedAction list \<Rightarrow> nat \<Rightarrow> SwapAction list \<Rightarrow> swap_kind" where
  "determineTokenDirection actions index flow =
     (case direction_scan (drop (index - 5) (take (min (length actions) (index + 5)) actions)) of
        Some d \<Rightarrow> d
      | None \<Rightarrow>
          if filter (\<lambda>a. s_action a = SELECT_FROM \<or> s_action a = SELECT_TO) flow = []
          then SELECT_FROM else SELECT_TO)"

definition isEnhancedAmountField :: "RecordedAction \<Rightarrow> bool" where
  "isEnhancedAmountField action =
     (case a_element action of
        None \<Rightarrow> False
      | Some element \<Rightarrow>
          opt_lower_includes (el_placeholder element) ''amount'' \<or>
          opt_lower_includes (el_placeholder element) ''0.0'' \<or>
          opt_lower_includes (el_placeholder element) ''enter amount'' \<or>
          opt_lower_includes (el_name element) ''amount'' \<or>
          opt_lower_includes (el_name element) ''quantity'' \<or>
          opt_includes (el_className element) ''amount-input'' \<or>
          opt_includes (el_className element) ''swap-input'' \<or>
          el_type element = Some ''number'' \<or>
          el_type element = Some ''text'')"

record amount_info =
  ai_amount :: string
  ai_price :: "string option"
  ai_slippage :: "string option"

definition amount_attribute ::
    "string option \<times> string option \<Rightarrow> string \<times> string \<Rightarrow> string option \<times> string option" where
  "amount_attribute ps kv =
     (case (ps, kv) of
        ((p, s), (key, v)) \<Rightarrow>
          (if includes_str key ''price'' \<or> includes_str key ''rate'' then Some v else p,
           if includes_str key ''slippage'' \<or> includes_str key ''tolerance'' then Some v else s))"

definition extractAmountInfo :: "RecordedAction \<Rightarrow> amount_info" where
  "extractAmountInfo action =
     (let amount = (if truthy (a_value action) then or_empty (a_value action) else ''0'') in
      case Option.bind (a_element action) el_attributes of
        None \<Rightarrow> \<lparr>ai_amount = amount, ai_price = None, ai_slippage = None\<rparr>
      | Some attrs \<Rightarrow>
          (case foldl amount_attribute (None, None) attrs of
             (p, s) \<Rightarrow> \<lparr>ai_amount = amount, ai_price = p, ai_slippage = s\<rparr>))"

text \<open>\<^verbatim>\<open>keywords.some(keyword => text.toLowerCase().includes(keyword))\<close>\<close>

definition some_keyword :: "string list \<Rightarrow> string \<Rightarrow> bool" where
  "some_keyword keywords text = list_ex (\<lambda>keyword. includes_str (toLowerCase text) keyword) keywords"

definition isEnhancedSwapButton :: "string \<Rightarrow> bool" where
  "isEnhancedSwapButton text =
     some_keyword [''swap'', ''exchange'', ''trade'', ''convert'', ''execute'', ''proceed''] text"

definition isEnhancedApproveButton :: "string \<Rightarrow> bool" where
  "isEnhancedApproveButton text =
     some_keyword [''approve'', ''allow'', ''enable'', ''unlock'', ''permit'', ''authorize''] text"

definition isEnhancedConfirmButton :: "string \<Rightarrow> bool" where
  "isEnhancedConfirmButton text =
     some_keyword [''confirm'', ''execute'', ''proceed'', ''continue'', ''submit'', ''finalize''] text"

text \<open>The state of the loop: \<^verbatim>\<open>this.optimizedData.swapFlow\<close> and \<^verbatim>\<open>flowIndex\<close>.\<close>

record flow_state =
  swapFlow :: "SwapAction list"
  flowIndex :: nat

definition flow_push ::
    "flow_state \<Rightarrow> swap_kind \<Rightarrow> string option \<Rightarrow> RecordedAction \<Rightarrow> metadata option \<Rightarrow> flow_state" where
  "flow_push st kind v action md =
     \<lparr>swapFlow = swapFlow st @
        [\<lparr>s_id = flowIndex st, s_action = kind, s_value = v, s_selector = a_selector action,
          s_timestamp = Some (a_timestamp action), s_metadata = md\<rparr>],
      flowIndex = flowIndex st + 1\<rparr>"

definition token_step ::
    "RecordedAction list \<Rightarrow> nat \<Rightarrow> RecordedAction \<Rightarrow> string \<Rightarrow> flow_state \<Rightarrow> flow_state" where
  "token_step actions index action text st =
     (if isEnhancedTokenSelection action text
      then (case extractEnhancedTokenInfo action of
              None \<Rightarrow> st
            | Some tokenInfo \<Rightarrow>
                flow_push st (determineTokenDirection actions index (swapFlow st))
                  (Some (ti_symbol tokenInfo)) action
                  (Some \<lparr>tokenAddress = Some (ti_address tokenInfo),
                         tokenSymbol = Some (ti_symbol tokenInfo),
                         amount = ti_amount tokenInfo, price = None, slippage = None\<rparr>))
      else st)"

text \<open>\<^verbatim>\<open>Array.prototype.find\<close>: the first element that satisfies the test, with its index.\<close>

fun find_first :: "('a \<Rightarrow> bool) \<Rightarrow> 'a list \<Rightarrow> (nat \<times> 'a) option" where
  "find_first P [] = None"
| "find_first P (x # xs) =
     (if P x then Some (0, x) else map_option (\<lambda>(i, y). (Suc i, y)) (find_first P xs))"

text \<open>\<^verbatim>\<open>a => a.action === 'INPUT_AMOUNT' && a.timestamp! < action.timestamp\<close>\<close>

definition earlier_input :: "int \<Rightarrow> SwapAction \<Rightarrow> bool" where
  "earlier_input ts a =
     (s_action a = INPUT_AMOUNT \<and> (case s_timestamp a of None \<Rightarrow> False | Some t \<Rightarrow> t < ts))"

definition push_amount :: "RecordedAction \<Rightarrow> flow_state \<Rightarrow> flow_state" where
  "push_amount action st =
     (let amountInfo = extractAmountInfo action in
      flow_push st INPUT_AMOUNT (a_value action) action
        (Some \<lparr>tokenAddress = None, tokenSymbol = None, amount = Some (ai_amount amountInfo),
               price = ai_price amountInfo, slippage = ai_slippage amountInfo\<rparr>))"

definition update_input :: "string option \<Rightarrow> SwapAction \<Rightarrow> SwapAction" where
  "update_input v lastInput =
     lastInput\<lparr>s_value := v,
               s_metadata := map_option (\<lambda>m. m\<lparr>amount := v\<rparr>) (s_metadata lastInput)\<rparr>"

definition amount_step :: "RecordedAction \<Rightarrow> flow_state \<Rightarrow> flow_state" where
  "amount_step action st =
     (if a_type action = Input \<and> (a_isAmountInput action \<or> isEnhancedAmountField action)
      then (case find_first (earlier_input (a_timestamp action)) (swapFlow st) of
              None \<Rightarrow> push_amount action st
            | Some (j, lastInput) \<Rightarrow>
                if (case s_timestamp lastInput of
                      None \<Rightarrow> False
                    | Some t \<Rightarrow> a_timestamp action - t > 2000)
                then push_amount action st
                else st\<lparr>swapFlow := (swapFlow st)[j := update_input (a_value action) lastInput]\<rparr>)
      else st)"

definition swap_step :: "RecordedAction \<Rightarrow> string \<Rightarrow> flow_state \<Rightarrow> flow_state" where
  "swap_step action buttonText st =
     (if a_type action = Click \<and> isEnhancedSwapButton buttonText
      then flow_push st CLICK_SWAP None action None else st)"

definition approve_step :: "RecordedAction \<Rightarrow> string \<Rightarrow> flow_state \<Rightarrow> flow_state" where
  "approve_step action buttonText st =
     (if a_type action = Click \<and> isEnhancedApproveButton buttonText
      then flow_push st APPROVE None action None else st)"

definition confirm_step :: "RecordedAction \<Rightarrow> string \<Rightarrow> flow_state \<Rightarrow> flow_state" where
  "confirm_step action buttonText st =
     (if a_type action = Click \<and> isEnhancedConfirmButton buttonText
      then flow_push st CONFIRM None action None else st)"

text \<open>One round of the loop; an action without element snapshot is skipped.\<close>

definition flow_step :: "RecordedAction list \<Rightarrow> flow_state \<Rightarrow> nat \<times> RecordedAction \<Rightarrow> flow_state" where
  "flow_step actions st ia =
     (case ia of
        (index, action) \<Rightarrow>
          (case a_element action of
             None \<Rightarrow> st
           | Some element \<Rightarrow>
               (let text = toLowerCase (or_empty (el_text element));
                    buttonText = or_empty (el_text element)
                in confirm_step action buttonText
                     (approve_step action buttonText
                        (swap_step action buttonText
                           (amount_step action
                              (token_step actions index action text st)))))))"

definition flow_scan :: "RecordedAction list \<Rightarrow> flow_state" where
  "flow_scan actions =
     foldl (flow_step actions) \<lparr>swapFlow = [], flowIndex = 0\<rparr> (enumerate 0 actions)"

text \<open>
  \<^verbatim>\<open>swapFlow.sort((a, b) => (a.timestamp || 0) - (b.timestamp || 0))\<close>, a stable sort, and
  the renumbering of the ids.
\<close>

definition sort_flow :: "SwapAction list \<Rightarrow> SwapAction list" where
  "sort_flow flow = sort_key (\<lambda>a. case s_timestamp a of None \<Rightarrow> 0 | Some t \<Rightarrow> t) flow"

definition renumber :: "SwapAction list \<Rightarrow> SwapAction list" where
  "renumber flow = map (\<lambda>(i, a). a\<lparr>s_id := i\<rparr>) (enumerate 0 flow)"

definition extractEnhancedSwapFlow :: "RecordedAction list \<Rightarrow> SwapAction list" where
  "extractEnhancedSwapFlow actions = renumber (sort_flow (swapFlow (flow_scan actions)))"

section \<open>DataOptimizer: pass 3, extractEnhancedApiPatterns\<close>

datatype purpose =
  Purpose_quote | Purpose_swap | Purpose_approve | Purpose_token_list | Purpose_price |
  Purpose_balance | Purpose_gas | Purpose_other

definition determineEnhancedApiPurpose :: "string \<Rightarrow> purpose" where
  "determineEnhancedApiPurpose url =
     (let urlLower = toLowerCase url in
      if includes_str urlLower ''/quote'' \<or> includes_str urlLower ''/price'' \<or>
         includes_str urlLower ''/rate'' then Purpose_quote
      else if includes_str urlLower ''/swap'' \<or> includes_str urlLower ''/execute'' \<or>
         includes_str urlLower ''/trade'' then Purpose_swap
      else if includes_str urlLower ''/approve'' \<or> includes_str urlLower ''/allowance'' \<or>
         includes_str urlLower ''/permit'' then Purpose_approve
      else if includes_str urlLower ''/token'' \<or> includes_str urlLower ''/list'' \<or>
         includes_str urlLower ''/pairs'' then Purpose_token_list
      else if includes_str urlLower ''/balance'' \<or> includes_str urlLower ''/account''
         then Purpose_balance
      else if includes_str urlLower ''/gas'' \<or> includes_str urlLower ''/estimate''
         then Purpose_gas
      else Purpose_other)"

text \<open>A JavaScript object filled by assignments \<^verbatim>\<open>obj[key] = value\<close> is a map.\<close>

definition extractParams :: "url_parser \<Rightarrow> string \<Rightarrow> (string \<rightharpoonup> string)" where
  "extractParams absolute url =
     (case URL_new absolute url of
        None \<Rightarrow> Map.empty
      | Some urlObj \<Rightarrow> foldl (\<lambda>params (key, v). params(key \<mapsto> v)) Map.empty (searchParams urlObj))"

definition importantHeaders :: "string list" where
  "importantHeaders = [''content-type'', ''authorization'', ''x-api-key'', ''referer'']"

definition sanitize_entry :: "(string \<rightharpoonup> string) \<Rightarrow> string \<times> string \<Rightarrow> (string \<rightharpoonup> string)" where
  "sanitize_entry sanitized kv =
     (case kv of
        (key, v) \<Rightarrow>
          if List.member importantHeaders (toLowerCase key)
          then (if toLowerCase key = ''authorization'' \<or> toLowerCase key = ''x-api-key''
                then sanitized(key \<mapsto> ''***MASKED***'')
                else sanitized(key \<mapsto> v))
          else sanitized)"

definition sanitizeHeaders :: "(string \<times> string) list option \<Rightarrow> (string \<rightharpoonup> string)" where
  "sanitizeHeaders headers =
     (case headers of
        None \<Rightarrow> Map.empty
      | Some entries \<Rightarrow> foldl sanitize_entry Map.empty entries)"

record response_pattern =
  hasResponse :: bool
  statusCode :: "int option"
  contentType :: "string option"

definition extractResponsePattern :: "NetworkRequest \<Rightarrow> response_pattern" where
  "extractResponsePattern request =
     \<lparr>hasResponse = (r_response request \<noteq> None),
      statusCode = map_option resp_status (r_response request),
      contentType =
        Option.bind (Option.bind (r_response request) resp_headers)
          (\<lambda>hs. map_of hs ''content-type'')\<rparr>"

record ApiEndpoint =
  e_url :: string
  e_method :: string
  e_purpose :: purpose
  e_params :: "string \<rightharpoonup> string"
  e_headers :: "string \<rightharpoonup> string"
  e_responsePattern :: response_pattern

text \<open>
  \<open>apiMap\<close> is a \<^verbatim>\<open>Map\<close>, whose values are read in insertion order at the end: the list
  of its entries. A request whose key is in the map already changes nothing. The source
  calls normalizeUrl for the key and again for the entry's url; it is a function of the
  url alone, and the model calls it once.
\<close>

definition api_step ::
    "url_parser \<Rightarrow> (string \<times> ApiEndpoint) list \<Rightarrow> NetworkRequest \<Rightarrow>
     js_error + (string \<times> ApiEndpoint) list" where
  "api_step absolute apiMap request =
     (let url = r_url request;
          purpose = determineEnhancedApiPurpose url
      in case normalizeUrl absolute url of
           Inl e \<Rightarrow> Inl e
         | Inr normalized \<Rightarrow>
             (let key = r_method request @ ''_'' @ normalized in
              if map_of apiMap key = None
              then Inr (apiMap @
                     [(key, \<lparr>e_url = normalized, e_method = r_method request,
                             e_purpose = purpose, e_params = extractParams absolute url,
                             e_headers = sanitizeHeaders (r_headers request),
                             e_responsePattern = extractResponsePattern request\<rparr>)])
              else Inr apiMap))"

fun api_loop ::
    "url_parser \<Rightarrow> (string \<times> ApiEndpoint) list \<Rightarrow> NetworkRequest list \<Rightarrow>
     js_error + (string \<times> ApiEndpoint) list" where
  "api_loop absolute apiMap [] = Inr apiMap"
| "api_loop absolute apiMap (request # requests) =
     (case api_step absolute apiMap request of
        Inl e \<Rightarrow> Inl e
      | Inr apiMap' \<Rightarrow> api_loop absolute apiMap' requests)"

definition extractEnhancedApiPatterns ::
    "url_parser \<Rightarrow> NetworkRequest list \<Rightarrow> js_error + ApiEndpoint list" where
  "extractEnhancedApiPatterns absolute requests =
     (case api_loop absolute [] requests of
        Inl e \<Rightarrow> Inl e
      | Inr apiMap \<Rightarrow> Inr (map snd apiMap))"

section \<open>DataOptimizer: pass 4, extractEssentialSelectors\<close>

definition token_selector_step ::
    "string \<Rightarrow> string \<Rightarrow> (string \<rightharpoonup> string) \<Rightarrow> (string \<rightharpoonup> string)" where
  "token_selector_step text sel selectorMap =
     (if includes_str text ''select'' \<and> includes_str text ''token''
      then (if includes_str text ''from'' \<or> includes_str text ''pay''
            then selectorMap(''fromTokenButton'' \<mapsto> sel)
            else if includes_str text ''to'' \<or> includes_str text ''receive''
            then selectorMap(''toTokenButton'' \<mapsto> sel)
            else selectorMap)
      else selectorMap)"

definition amount_selector_step ::
    "RecordedAction \<Rightarrow> string \<Rightarrow> (string \<rightharpoonup> string) \<Rightarrow> (string \<rightharpoonup> string)" where
  "amount_selector_step action sel selectorMap =
     (if a_type action = Input \<and> isEnhancedAmountField action
      then (if selectorMap ''amountInput'' = None
            then selectorMap(''amountInput'' \<mapsto> sel) else selectorMap)
      else selectorMap)"

definition swap_selector_step ::
    "element \<Rightarrow> string \<Rightarrow> (string \<rightharpoonup> string) \<Rightarrow> (string \<rightharpoonup> string)" where
  "swap_selector_step element sel selectorMap =
     (if isEnhancedSwapButton (or_empty (el_text element))
      then selectorMap(''swapButton'' \<mapsto> sel) else selectorMap)"

definition approve_selector_step ::
    "element \<Rightarrow> string \<Rightarrow> (string \<rightharpoonup> string) \<Rightarrow> (string \<rightharpoonup> string)" where
  "approve_selector_step element sel selectorMap =
     (if isEnhancedApproveButton (or_empty (el_text element))
      then selectorMap(''approveButton'' \<mapsto> sel) else selectorMap)"

text \<open>One round of the loop; \<^verbatim>\<open>if (!action.selector || !action.element) continue;\<close>\<close>

definition selector_step :: "(string \<rightharpoonup> string) \<Rightarrow> RecordedAction \<Rightarrow> (string \<rightharpoonup> string)" where
  "selector_step selectorMap action =
     (case a_element action of
        None \<Rightarrow> selectorMap
      | Some element \<Rightarrow>
          if truthy (a_selector action)
          then (let sel = or_empty (a_selector action);
                    text = toLowerCase (or_empty (el_text element))
                in approve_selector_step element sel
                     (swap_selector_step element sel
                        (amount_selector_step action sel
                           (token_selector_step text sel selectorMap))))
          else selectorMap)"

definition extractEssentialSelectors :: "RecordedAction list \<Rightarrow> (string \<rightharpoonup> string)" where
  "extractEssentialSelectors actions = foldl selector_step Map.empty actions"

section \<open>DataOptimizer: calculateComprehensiveSummary\<close>

text \<open>
  The numbers of the ratio. Both operands of the division are array lengths; a finite
  value is kept exact (a rational), where the engine rounds to a double.
\<close>

datatype js_number = Finite rat | NaN | PosInfinity | NegInfinity

text \<open>\<^verbatim>\<open>a / b\<close> for two lengths: \<^verbatim>\<open>0 / 0\<close> is NaN, \<^verbatim>\<open>a / 0\<close> is Infinity.\<close>

definition js_divide :: "nat \<Rightarrow> nat \<Rightarrow> js_number" where
  "js_divide a b =
     (if b = 0 then (if a = 0 then NaN else PosInfinity) else Finite (of_nat a / of_nat b))"

text \<open>\<^verbatim>\<open>1 - x\<close>\<close>

fun one_minus :: "js_number \<Rightarrow> js_number" where
  "one_minus (Finite r) = Finite (1 - r)"
| "one_minus NaN = NaN"
| "one_minus PosInfinity = NegInfinity"
| "one_minus NegInfinity = PosInfinity"

text \<open>\<^verbatim>\<open>x * 100\<close>\<close>

fun times_100 :: "js_number \<Rightarrow> js_number" where
  "times_100 (Finite r) = Finite (r * 100)"
| "times_100 NaN = NaN"
| "times_100 PosInfinity = PosInfinity"
| "times_100 NegInfinity = NegInfinity"

definition digit_char :: "nat \<Rightarrow> char" where
  "digit_char d = char_of (48 + d)"

fun show_nat :: "nat \<Rightarrow> string" where
  "show_nat n = (if n < 10 then [digit_char n] else show_nat (n div 10) @ [digit_char (n mod 10)])"

text \<open>
  \<^verbatim>\<open>x.toFixed(1)\<close>: the sign, then the integer \<open>n\<close> nearest to ten times the magnitude
  (the larger of two), printed with one digit after the point. Magnitudes from
  \<open>10\<^sup>2\<^sup>1\<close> on, which print differently, are out of the reach of array lengths.
\<close>

fun toFixed_1 :: "js_number \<Rightarrow> string" where
  "toFixed_1 NaN = ''NaN''"
| "toFixed_1 PosInfinity = ''Infinity''"
| "toFixed_1 NegInfinity = ''-Infinity''"
| "toFixed_1 (Finite r) =
     (let n = nat \<lfloor>\<bar>r\<bar> * 10 + 1 / 2\<rfloor> in
      (if r < 0 then ''-'' else []) @ show_nat (n div 10) @ ''.'' @ show_nat (n mod 10))"

record summary =
  originalActions :: nat
  optimizedActions :: nat
  summary_duplicatesRemoved :: nat
  compressionRatio :: string
  swapDetected :: bool

text \<open>The summary as the constructor leaves it.\<close>

definition summary_init :: summary where
  "summary_init =
     \<lparr>originalActions = 0, optimizedActions = 0, summary_duplicatesRemoved = 0,
      compressionRatio = ''0%'', swapDetected = False\<rparr>"

definition calculateComprehensiveSummary ::
    "RecordedAction list \<Rightarrow> SwapAction list \<Rightarrow> summary \<Rightarrow> summary" where
  "calculateComprehensiveSummary actions flow sm =
     (let original = length actions;
          optimized = length flow;
          ratio = toFixed_1 (times_100 (one_minus (js_divide optimized original)))
      in sm\<lparr>originalActions := original, optimizedActions := optimized,
            swapDetected := (optimized > 0), compressionRatio := ratio @ ''%''\<rparr>)"

section \<open>DataOptimizer.optimize\<close>

text \<open>
  Of the optimized data: the swap flow, the endpoints, the selectors and the summary.
  The steps of \<^verbatim>\<open>optimize\<close> that fill the other fields (wallet actions, the balance,
  chain and validation placeholders, the DEX type) write none of these.
\<close>

record OptimizedData =
  od_swapFlow :: "SwapAction list"
  od_apiEndpoints :: "ApiEndpoint list"
  od_essentialSelectors :: "string \<rightharpoonup> string"
  od_summary :: summary

definition optimize :: "url_parser \<Rightarrow> Recording \<Rightarrow> js_error + OptimizedData" where
  "optimize absolute recording =
     (let dedup = removeDuplicates (rec_actions recording);
          flow = extractEnhancedSwapFlow (uniqueActions dedup)
      in case extractEnhancedApiPatterns absolute (rec_networkRequests recording) of
           Inl e \<Rightarrow> Inl e
         | Inr endpoints \<Rightarrow>
             Inr \<lparr>od_swapFlow = flow,
                  od_apiEndpoints = endpoints,
                  od_essentialSelectors = extractEssentialSelectors (uniqueActions dedup),
                  od_summary =
                    calculateComprehensiveSummary (rec_actions recording) flow
                      (summary_init\<lparr>summary_duplicatesRemoved := duplicatesRemoved dedup\<rparr>)\<rparr>)"

section \<open>RecorderEngine: the action buffer and stopRecording\<close>

text \<open>An action as the page's listeners record it, with the page's clock as timestamp.\<close>

record PageAction =
  pa_type :: action_type
  pa_timestamp :: int
  pa_selector :: "string option"
  pa_value :: "string option"
  pa_url :: "string option"
  pa_element :: "element option"
  pa_method :: "string option"
  pa_isAmountInput :: bool

record engine =
  eng_recording :: bool
  eng_actions :: "RecordedAction list"
  eng_networkRequests :: "NetworkRequest list"
  eng_startTime :: int

text \<open>startRecording at time \<open>now\<close>, as far as the buffers go.\<close>

definition startRecording :: "int \<Rightarrow> engine" where
  "startRecording now = \<lparr>eng_recording = True, eng_actions = [], eng_networkRequests = [], eng_startTime = now\<rparr>"

text \<open>
  The \<^verbatim>\<open>framenavigated\<close> handler for the main frame, at time \<open>now\<close>: it appends a
  navigate action to the engine's own buffer. \<open>uuid\<close> is the value of \<^verbatim>\<open>uuidv4()\<close>.
\<close>

definition framenavigated :: "string \<Rightarrow> int \<Rightarrow> string \<Rightarrow> engine \<Rightarrow> engine" where
  "framenavigated uuid now frameUrl eng =
     (if eng_recording eng
      then eng\<lparr>eng_actions := eng_actions eng @
             [\<lparr>a_id = uuid, a_type = Navigate, a_timestamp = now - eng_startTime eng,
               a_selector = None, a_url = Some frameUrl, a_value = None, a_element = None,
               a_walletMethod = None, a_isAmountInput = False\<rparr>]\<rparr>
      else eng)"

text \<open>
  The frames' buffers: \<^term>\<open>None\<close> for a frame whose evaluation throws (a detached
  frame), which the loop skips.
\<close>

definition drain_frames :: "PageAction list option list \<Rightarrow> PageAction list" where
  "drain_frames frames =
     foldl (\<lambda>pageActions frame.
              case frame of None \<Rightarrow> pageActions | Some frameActions \<Rightarrow> pageActions @ frameActions)
       [] frames"

definition to_recorded :: "int \<Rightarrow> string \<Rightarrow> PageAction \<Rightarrow> RecordedAction" where
  "to_recorded start uuid action =
     \<lparr>a_id = uuid, a_type = pa_type action, a_timestamp = pa_timestamp action - start,
      a_selector = pa_selector action, a_url = pa_url action, a_value = pa_value action,
      a_element = pa_element action, a_walletMethod = pa_method action,
      a_isAmountInput = pa_isAmountInput action\<rparr>"

text \<open>
  stopRecording at time \<open>now\<close>: the drained actions are sorted by their timestamps
  (\<^verbatim>\<open>pageActions.sort((a, b) => a.timestamp - b.timestamp)\<close>, a stable sort) and pushed
  onto the engine's buffer, which becomes the recording's actions. \<open>uuids\<close> gives the
  identifier of the \<open>i\<close>-th pushed action.
\<close>

definition stopRecording ::
    "(nat \<Rightarrow> string) \<Rightarrow> int \<Rightarrow> string \<Rightarrow> PageAction list option list \<Rightarrow> engine \<Rightarrow> Recording" where
  "stopRecording uuids now pageUrl frames eng =
     (let pageActions = sort_key pa_timestamp (drain_frames frames) in
      \<lparr>rec_url = pageUrl,
       rec_duration = now - eng_startTime eng,
       rec_actions = eng_actions eng @
         map (\<lambda>(i, action). to_recorded (eng_startTime eng) (uuids i) action) (enumerate 0 pageActions),
       rec_networkRequests = eng_networkRequests eng\<rparr>)"

section \<open>Sample inputs\<close>

text \<open>An element snapshot of which only the visible text is set.\<close>

definition plain_element :: "string option \<Rightarrow> element" where
  "plain_element t =
     \<lparr>el_tag = ''button'', el_text = t, el_placeholder = None, el_type = None,
      el_className = None, el_name = None, el_role = None, el_innerHTML = None,
      el_attributes = None\<rparr>"

definition click_on :: "string option \<Rightarrow> string \<Rightarrow> int \<Rightarrow> RecordedAction" where
  "click_on sel t ts =
     \<lparr>a_id = [], a_type = Click, a_timestamp = ts, a_selector = sel, a_url = None,
      a_value = None, a_element = Some (plain_element (Some t)), a_walletMethod = None,
      a_isAmountInput = False\<rparr>"

definition amount_input :: "string \<Rightarrow> string \<Rightarrow> int \<Rightarrow> element option \<Rightarrow> RecordedAction" where
  "amount_input sel v ts e =
     \<lparr>a_id = [], a_type = Input, a_timestamp = ts, a_selector = Some sel, a_url = None,
      a_value = Some v, a_element = e, a_walletMethod = None, a_isAmountInput = True\<rparr>"

definition page_click :: "string \<Rightarrow> string \<Rightarrow> int \<Rightarrow> PageAction" where
  "page_click sel t ts =
     \<lparr>pa_type = Click, pa_timestamp = ts, pa_selector = Some sel, pa_value = None,
      pa_url = None, pa_element = Some (plain_element (Some t)), pa_method = None,
      pa_isAmountInput = False\<rparr>"

definition sample_uuids :: "nat \<Rightarrow> string" where
  "sample_uuids i = ''action-'' @ show_nat i"

text \<open>A click on one fixed selector, without element snapshot, at a given time.\<close>

definition click_at :: "int \<Rightarrow> RecordedAction" where
  "click_at ts =
     \<lparr>a_id = [], a_type = Click, a_timestamp = ts, a_selector = Some ''#swap'', a_url = None,
      a_value = None, a_element = None, a_walletMethod = None, a_isAmountInput = False\<rparr>"

definition sample_headers :: "string \<Rightarrow> (string \<times> string) list" where
  "sample_headers token =
     [(''Content-Type'', ''application/json''), (''Authorization'', token),
      (''User-Agent'', ''Chrome'')]"



text \<open>
  A parser for the sample inputs: an \<^verbatim>\<open>https\<close> URL made of a host, a path and a query
  (no port, credentials or fragment), each taken as written.
\<close>

definition sample_parser :: url_parser where
  "sample_parser url =
     (if prefix ''https://'' url
      then (let rest = drop 8 url;
                host = takeWhile (\<lambda>c. c \<noteq> CHR ''/'' \<and> c \<noteq> CHR ''?'') rest;
                tail = dropWhile (\<lambda>c. c \<noteq> CHR ''/'' \<and> c \<noteq> CHR ''?'') rest;
                path = takeWhile (\<lambda>c. c \<noteq> CHR ''?'') tail;
                query = drop 1 (dropWhile (\<lambda>c. c \<noteq> CHR ''?'') tail)
            in if host = [] then None
               else Some \<lparr>origin = ''https://'' @ host,
                          pathname = (if path = [] then ''/'' else path),
                          searchParams =
                            map (\<lambda>p. (takeWhile (\<lambda>c. c \<noteq> CHR ''='') p,
                                      drop 1 (dropWhile (\<lambda>c. c \<noteq> CHR ''='') p)))
                              (filter (\<lambda>p. p \<noteq> []) (split (CHR ''&'') query))\<rparr>)
      else None)"

definition quote_request :: "string \<Rightarrow> NetworkRequest" where
  "quote_request query =
     \<lparr>r_url = ''https://x/api/quote?'' @ query, r_method = ''GET'',
      r_headers = Some (sample_headers ''Bearer abc''), r_response = None\<rparr>"

section \<open>Invariants of the loops\<close>

text \<open>
  removeDuplicates: an entry of \<open>actionMap\<close> is a kept action of that key, the latest
  in time of the kept actions of the key; every kept action has an entry for its key.
\<close>

definition dedup_inv :: "dedup_state \<Rightarrow> bool" where
  "dedup_inv st =
     ((\<forall>key e. actionMap st key = Some e \<longrightarrow>
         e \<in> set (uniqueActions st) \<and> generateActionKey e = key \<and>
         (\<forall>k \<in> set (uniqueActions st).
            generateActionKey k = key \<longrightarrow> a_timestamp k \<le> a_timestamp e)) \<and>
      (\<forall>k \<in> set (uniqueActions st). actionMap st (generateActionKey k) \<noteq> None))"

definition secret_header :: "string \<Rightarrow> bool" where
  "secret_header key = (toLowerCase key = ''authorization'' \<or> toLowerCase key = ''x-api-key'')"

definition sanitized_ok :: "(string \<rightharpoonup> string) \<Rightarrow> bool" where
  "sanitized_ok m =
     (\<forall>key v. m key = Some v \<longrightarrow>
        toLowerCase key \<in> set importantHeaders \<and>
        (secret_header key \<longrightarrow> v = ''***MASKED***''))"

text \<open>
  extractEnhancedApiPatterns: the keys of \<open>apiMap\<close> are distinct, every entry sits under
  the key of its method and url, and comes from a request read so far.
\<close>

definition endpoint_key :: "ApiEndpoint \<Rightarrow> string" where
  "endpoint_key e = e_method e @ ''_'' @ e_url e"

definition api_inv :: "url_parser \<Rightarrow> NetworkRequest set \<Rightarrow> (string \<times> ApiEndpoint) list \<Rightarrow> bool" where
  "api_inv absolute R m =
     (distinct (map fst m) \<and>
      (\<forall>(k, e) \<in> set m. k = endpoint_key e \<and>
         (\<exists>r \<in> R. e_method e = r_method r \<and> normalizeUrl absolute (r_url r) = Inr (e_url e))))"

section \<open>Facts about the string operations\<close>

lemma split_nonempty: "split c s \<noteq> []"
  by (induction s) (auto split: list.splits)

lemma hd_split: "hd (split c s) = takeWhile (\<lambda>x. x \<noteq> c) s"
  by (induction s) (auto split: list.splits simp: split_nonempty)

lemma split_cases: "\<exists>ps. split c s = takeWhile (\<lambda>x. x \<noteq> c) s # ps"
  using split_nonempty [of c s] hd_split [of c s] by (cases "split c s") auto

lemma replace_trailing_slash_eq:
  "replace_trailing_slash s = (if s \<noteq> [] \<and> last s = CHR ''/'' then butlast s else s)"
  by (induction s) auto

lemma normalizeUrl_fallback:
  assumes "CHR '':'' \<notin> set url"
  shows "normalizeUrl absolute url =
           Inr (replace_trailing_slash (takeWhile (\<lambda>x. x \<noteq> CHR ''?'') url))"
proof -
  obtain ps where "split (CHR ''?'') url = takeWhile (\<lambda>x. x \<noteq> CHR ''?'') url # ps"
    using split_cases by blast
  with assms show ?thesis by (simp add: normalizeUrl_def URL_new_def)
qed

section \<open>normalizeUrl is total\<close>

text \<open>
  C10. normalizeUrl returns a string for every input and every behaviour of the platform
  parser, never an exception: when the input does not parse, the result is the part of
  the input before the first \<^verbatim>\<open>?\<close> (all of it when there is none) without one trailing
  \<^verbatim>\<open>/\<close>; when it parses, the result is origin followed by pathname without one trailing
  \<^verbatim>\<open>/\<close>.
\<close>

theorem normalizeUrl_total:
  "normalizeUrl absolute url =
     Inr (let s = (case URL_new absolute url of
                     None \<Rightarrow> takeWhile (\<lambda>x. x \<noteq> CHR ''?'') url
                   | Some urlObj \<Rightarrow> origin urlObj @ pathname urlObj)
          in if s \<noteq> [] \<and> last s = CHR ''/'' then butlast s else s)"
proof (cases "URL_new absolute url")
  case None
  obtain ps where "split (CHR ''?'') url = takeWhile (\<lambda>x. x \<noteq> CHR ''?'') url # ps"
    using split_cases by blast
  with None show ?thesis
    by (simp add: normalizeUrl_def replace_trailing_slash_eq)
next
  case (Some urlObj)
  then show ?thesis
    by (simp add: normalizeUrl_def replace_trailing_slash_eq)
qed

section \<open>normalizeUrl is not idempotent\<close>

lemma normalizeUrl_double_slash:
  "normalizeUrl sample_parser ''https://x/a//'' = Inr ''https://x/a/''"
  "normalizeUrl sample_parser ''https://x/a/'' = Inr ''https://x/a''"
  by code_simp+

text \<open>
  C8. The claim is that normalizeUrl applied twice gives what it gives applied once. The
  code removes one trailing slash only. On \<^verbatim>\<open>a//\<close>, which has no scheme and takes the
  \<^verbatim>\<open>catch\<close> branch whatever the platform parser does elsewhere, the first application
  gives \<^verbatim>\<open>a/\<close> and the second \<^verbatim>\<open>a\<close>; on \<^verbatim>\<open>https://x/a//\<close>, whose pathname is
  \<^verbatim>\<open>/a//\<close>, the first gives \<^verbatim>\<open>https://x/a/\<close> and the second \<^verbatim>\<open>https://x/a\<close>.
\<close>

theorem normalizeUrl_twice_differs:
  "normalizeUrl absolute ''a//'' = Inr ''a/'' \<and> normalizeUrl absolute ''a/'' = Inr ''a'' \<and>
   normalizeUrl sample_parser ''https://x/a//'' = Inr ''https://x/a/'' \<and>
   normalizeUrl sample_parser ''https://x/a/'' = Inr ''https://x/a''"
  by (simp add: normalizeUrl_fallback normalizeUrl_double_slash)

section \<open>removeDuplicates\<close>

lemma dedup_inv_init: "dedup_inv dedup_init"
  by (simp add: dedup_inv_def dedup_init_def)

lemma dedup_inv_step:
  assumes "dedup_inv st"
  shows "dedup_inv (removeDuplicates_step st action)"
proof (cases "actionMap st (generateActionKey action)")
  case None
  with assms show ?thesis
    unfolding dedup_inv_def removeDuplicates_step_def dedup_keep_def Let_def
    by (auto split: if_splits)
next
  case (Some existing)
  show ?thesis
  proof (cases "a_timestamp action - a_timestamp existing > duplicateThreshold")
    case True
    with assms Some show ?thesis
      unfolding dedup_inv_def removeDuplicates_step_def dedup_keep_def Let_def duplicateThreshold_def
      by (fastforce split: if_splits)
  next
    case False
    with assms Some show ?thesis
      unfolding dedup_inv_def removeDuplicates_step_def Let_def
      by simp
  qed
qed

lemma dedup_inv_foldl: "dedup_inv st \<Longrightarrow> dedup_inv (foldl removeDuplicates_step st actions)"
  by (induction actions arbitrary: st) (simp_all add: dedup_inv_step)

lemma dedup_inv_removeDuplicates: "dedup_inv (removeDuplicates actions)"
  by (simp add: removeDuplicates_def dedup_inv_foldl dedup_inv_init)

lemma removeDuplicates_snoc:
  "removeDuplicates (actions @ [action]) = removeDuplicates_step (removeDuplicates actions) action"
  by (simp add: removeDuplicates_def)

lemma step_kept:
  assumes "dedup_inv st"
  shows "uniqueActions (removeDuplicates_step st action) =
     (if (\<forall>k \<in> set (uniqueActions st). generateActionKey k = generateActionKey action \<longrightarrow>
            a_timestamp action - a_timestamp k > 1000)
      then uniqueActions st @ [action] else uniqueActions st)"
proof (cases "actionMap st (generateActionKey action)")
  case None
  with assms have "\<forall>k \<in> set (uniqueActions st). generateActionKey k \<noteq> generateActionKey action"
    unfolding dedup_inv_def by metis
  with None show ?thesis
    by (simp add: removeDuplicates_step_def dedup_keep_def)
next
  case (Some existing)
  with assms have ex: "existing \<in> set (uniqueActions st)" "generateActionKey existing = generateActionKey action"
    and mx: "\<forall>k \<in> set (uniqueActions st). generateActionKey k = generateActionKey action \<longrightarrow> a_timestamp k \<le> a_timestamp existing"
    unfolding dedup_inv_def by blast+
  have "(\<forall>k \<in> set (uniqueActions st). generateActionKey k = generateActionKey action \<longrightarrow>
            a_timestamp action - a_timestamp k > 1000) \<longleftrightarrow> a_timestamp action - a_timestamp existing > 1000"
    using ex mx by fastforce
  with Some show ?thesis
    by (simp add: removeDuplicates_step_def dedup_keep_def duplicateThreshold_def)
qed

lemma dedup_count_foldl:
  "duplicatesRemoved (foldl removeDuplicates_step st actions) + length (uniqueActions (foldl removeDuplicates_step st actions))
     = duplicatesRemoved st + length (uniqueActions st) + length actions"
  by (induction actions arbitrary: st)
     (auto simp: removeDuplicates_step_def dedup_keep_def Let_def split: option.splits)

lemma kept_subset_step:
  "set (uniqueActions (removeDuplicates_step st action)) \<subseteq> set (uniqueActions st) \<union> {action}"
  by (auto simp: removeDuplicates_step_def dedup_keep_def Let_def split: option.splits if_splits)

lemma kept_subset_foldl:
  "set (uniqueActions (foldl removeDuplicates_step st acts)) \<subseteq> set (uniqueActions st) \<union> set acts"
proof (induction acts arbitrary: st)
  case Nil
  show ?case by simp
next
  case (Cons a acts)
  have "set (uniqueActions (foldl removeDuplicates_step (removeDuplicates_step st a) acts))
          \<subseteq> set (uniqueActions (removeDuplicates_step st a)) \<union> set acts"
    by (rule Cons.IH)
  with kept_subset_step [of st a] show ?case by auto
qed

lemma kept_subset: "set (uniqueActions (removeDuplicates actions)) \<subseteq> set actions"
  using kept_subset_foldl [of dedup_init actions] by (simp add: removeDuplicates_def dedup_init_def)

text \<open>
  C3, as amended. For every action sequence and every next action: the action is kept
  exactly when its timestamp is more than 1000 ms later than that of every action kept
  so far with the same key (so the first action of a key is kept, a kept action is the
  reference for the next, and an action stamped earlier than the reference is dropped);
  the actions kept and the duplicates counted add up to the actions read; and when no
  earlier action of the key is stamped later than the action, it is kept exactly when no
  kept action of its key lies within the 1000 ms before it, as the claim says.
\<close>

theorem removeDuplicates_keeps:
  "uniqueActions (removeDuplicates (acts @ [action])) =
     (if (\<forall>k \<in> set (uniqueActions (removeDuplicates acts)).
            generateActionKey k = generateActionKey action \<longrightarrow> a_timestamp action - a_timestamp k > 1000)
      then uniqueActions (removeDuplicates acts) @ [action]
      else uniqueActions (removeDuplicates acts)) \<and>
   duplicatesRemoved (removeDuplicates acts) + length (uniqueActions (removeDuplicates acts)) = length acts \<and>
   ((\<forall>k \<in> set acts. generateActionKey k = generateActionKey action \<longrightarrow> a_timestamp k \<le> a_timestamp action) \<longrightarrow>
      uniqueActions (removeDuplicates (acts @ [action])) =
        (if (\<exists>k \<in> set (uniqueActions (removeDuplicates acts)).
               generateActionKey k = generateActionKey action \<and>
               a_timestamp action - 1000 \<le> a_timestamp k \<and> a_timestamp k \<le> a_timestamp action)
         then uniqueActions (removeDuplicates acts)
         else uniqueActions (removeDuplicates acts) @ [action]))"
proof -
  let ?kept = "uniqueActions (removeDuplicates acts)"
  have general: "uniqueActions (removeDuplicates (acts @ [action])) =
     (if (\<forall>k \<in> set ?kept. generateActionKey k = generateActionKey action \<longrightarrow>
            a_timestamp action - a_timestamp k > 1000)
      then ?kept @ [action] else ?kept)"
    using step_kept [OF dedup_inv_removeDuplicates, of acts action]
    by (simp only: removeDuplicates_snoc)
  have count: "duplicatesRemoved (removeDuplicates acts) + length ?kept = length acts"
    using dedup_count_foldl [of dedup_init acts]
    by (simp add: removeDuplicates_def dedup_init_def)
  have ordered: "uniqueActions (removeDuplicates (acts @ [action])) =
        (if (\<exists>k \<in> set ?kept. generateActionKey k = generateActionKey action \<and>
               a_timestamp action - 1000 \<le> a_timestamp k \<and> a_timestamp k \<le> a_timestamp action)
         then ?kept else ?kept @ [action])"
    if le: "\<forall>k \<in> set acts. generateActionKey k = generateActionKey action \<longrightarrow>
              a_timestamp k \<le> a_timestamp action"
  proof -
    have "\<forall>k \<in> set ?kept. generateActionKey k = generateActionKey action \<longrightarrow>
            a_timestamp k \<le> a_timestamp action"
      using le kept_subset [of acts] by blast
    then have "(\<forall>k \<in> set ?kept. generateActionKey k = generateActionKey action \<longrightarrow>
            a_timestamp action - a_timestamp k > 1000) \<longleftrightarrow>
        \<not> (\<exists>k \<in> set ?kept. generateActionKey k = generateActionKey action \<and>
               a_timestamp action - 1000 \<le> a_timestamp k \<and> a_timestamp k \<le> a_timestamp action)"
      by fastforce
    with general show ?thesis by simp
  qed
  from general count ordered show ?thesis by blast
qed

theorem removeDuplicates_keeps_witness:
  "uniqueActions (removeDuplicates ([click_at 0, click_at 400] @ [click_at 1200])) =
     [click_at 0, click_at 1200]"
proof -
  have kept: "uniqueActions (removeDuplicates [click_at 0, click_at 400]) = [click_at 0]"
    by code_simp
  have "\<forall>k \<in> set [click_at 0, click_at 400].
          generateActionKey k = generateActionKey (click_at 1200) \<longrightarrow>
          a_timestamp k \<le> a_timestamp (click_at 1200)"
    by (simp add: click_at_def)
  with removeDuplicates_keeps [of "[click_at 0, click_at 400]" "click_at 1200"]
  have "uniqueActions (removeDuplicates ([click_at 0, click_at 400] @ [click_at 1200])) =
        (if (\<exists>k \<in> set (uniqueActions (removeDuplicates [click_at 0, click_at 400])).
               generateActionKey k = generateActionKey (click_at 1200) \<and>
               a_timestamp (click_at 1200) - 1000 \<le> a_timestamp k \<and>
               a_timestamp k \<le> a_timestamp (click_at 1200))
         then uniqueActions (removeDuplicates [click_at 0, click_at 400])
         else uniqueActions (removeDuplicates [click_at 0, click_at 400]) @ [click_at 1200])"
    by blast
  then show ?thesis
    unfolding kept by (simp add: click_at_def)
qed

text \<open>
  C3 as stated fails on a sequence whose timestamps go back: the second click is stamped
  5000 ms before the kept first one, so no kept action lies within the 1000 ms before
  it, and it is dropped all the same.
\<close>

theorem removeDuplicates_earlier_stamp_dropped:
  "uniqueActions (removeDuplicates [click_at 5000, click_at 0]) = [click_at 5000] \<and>
   generateActionKey (click_at 0) = generateActionKey (click_at 5000) \<and>
   \<not> (a_timestamp (click_at 0) - 1000 \<le> a_timestamp (click_at 5000) \<and>
      a_timestamp (click_at 5000) \<le> a_timestamp (click_at 0))"
  by code_simp

section \<open>sanitizeHeaders\<close>

lemma sanitized_ok_step: "sanitized_ok m \<Longrightarrow> sanitized_ok (sanitize_entry m kv)"
  by (cases kv) (auto simp: sanitized_ok_def sanitize_entry_def secret_header_def)

lemma sanitized_ok_foldl: "sanitized_ok m \<Longrightarrow> sanitized_ok (foldl sanitize_entry m hs)"
  by (induction hs arbitrary: m) (simp_all add: sanitized_ok_step)

lemma sanitized_ok_empty: "sanitized_ok Map.empty"
  by (simp add: sanitized_ok_def)

lemma sanitized_ok_sanitizeHeaders: "sanitized_ok (sanitizeHeaders headers)"
  by (cases headers) (simp_all add: sanitizeHeaders_def sanitized_ok_foldl sanitized_ok_empty)

lemma sanitize_entry_secret:
  "secret_header key \<Longrightarrow> sanitize_entry m (key, v) = sanitize_entry m (key, v')"
  by (simp add: sanitize_entry_def secret_header_def)

lemma sanitize_foldl_secret:
  assumes "list_all2 (\<lambda>kv kv'. fst kv = fst kv' \<and> (snd kv = snd kv' \<or> secret_header (fst kv))) hs hs'"
  shows "foldl sanitize_entry m hs = foldl sanitize_entry m hs'"
  using assms
proof (induction hs hs' arbitrary: m rule: list_all2_induct)
  case Nil
  show ?case by simp
next
  case (Cons kv hs kv' hs')
  obtain key v v' where kv: "kv = (key, v)" "kv' = (key, v')"
    using Cons.hyps(1) by (cases kv, cases kv') auto
  have "sanitize_entry m kv = sanitize_entry m kv'"
    using Cons.hyps(1) kv sanitize_entry_secret [of key m v v'] by auto
  then show ?case using Cons.IH by simp
qed

text \<open>
  C9. For every header object: every key of the sanitized headers lower-cases into the
  allow-list, and the value kept under a key that lower-cases to \<^verbatim>\<open>authorization\<close> or
  \<^verbatim>\<open>x-api-key\<close> is the mask; two header objects with the same keys in the same order
  that differ only in the values of such keys have the same sanitized headers.
\<close>

theorem sanitizeHeaders_masks_secrets:
  "(\<forall>key v. sanitizeHeaders headers key = Some v \<longrightarrow>
      toLowerCase key \<in> set [''content-type'', ''authorization'', ''x-api-key'', ''referer''] \<and>
      (toLowerCase key = ''authorization'' \<or> toLowerCase key = ''x-api-key'' \<longrightarrow> v = ''***MASKED***'')) \<and>
   (list_all2 (\<lambda>kv kv'. fst kv = fst kv' \<and>
        (snd kv = snd kv' \<or> toLowerCase (fst kv) = ''authorization'' \<or> toLowerCase (fst kv) = ''x-api-key''))
      hs hs' \<longrightarrow> sanitizeHeaders (Some hs) = sanitizeHeaders (Some hs'))"
proof -
  have "sanitized_ok (sanitizeHeaders headers)"
    by (rule sanitized_ok_sanitizeHeaders)
  then have first: "\<forall>key v. sanitizeHeaders headers key = Some v \<longrightarrow>
      toLowerCase key \<in> set [''content-type'', ''authorization'', ''x-api-key'', ''referer''] \<and>
      (toLowerCase key = ''authorization'' \<or> toLowerCase key = ''x-api-key'' \<longrightarrow> v = ''***MASKED***'')"
    unfolding sanitized_ok_def secret_header_def importantHeaders_def by blast
  have second: "sanitizeHeaders (Some hs) = sanitizeHeaders (Some hs')"
    if "list_all2 (\<lambda>kv kv'. fst kv = fst kv' \<and>
        (snd kv = snd kv' \<or> toLowerCase (fst kv) = ''authorization'' \<or> toLowerCase (fst kv) = ''x-api-key''))
      hs hs'"
    using that sanitize_foldl_secret [of hs hs' Map.empty]
    by (simp add: sanitizeHeaders_def secret_header_def)
  from first second show ?thesis by blast
qed

lemma lower_samples:
  "toLowerCase ''Content-Type'' = ''content-type''"
  "toLowerCase ''Authorization'' = ''authorization''"
  "toLowerCase ''User-Agent'' = ''user-agent''"
  by code_simp+

theorem sanitizeHeaders_masks_secrets_witness:
  "sanitizeHeaders (Some (sample_headers ''Bearer abc'')) ''Authorization'' = Some ''***MASKED***'' \<and>
   sanitizeHeaders (Some (sample_headers ''Bearer abc'')) = sanitizeHeaders (Some (sample_headers ''Bearer xyz''))"
proof -
  have rel: "list_all2 (\<lambda>kv kv'. fst kv = fst kv' \<and>
        (snd kv = snd kv' \<or> toLowerCase (fst kv) = ''authorization'' \<or> toLowerCase (fst kv) = ''x-api-key''))
      (sample_headers ''Bearer abc'') (sample_headers ''Bearer xyz'')"
    by (simp add: sample_headers_def lower_samples)
  have look: "sanitizeHeaders (Some (sample_headers ''Bearer abc'')) ''Authorization'' \<noteq> None"
    by (simp add: sanitizeHeaders_def sample_headers_def sanitize_entry_def lower_samples
        importantHeaders_def)
  from sanitizeHeaders_masks_secrets [of "Some (sample_headers ''Bearer abc'')"
      "sample_headers ''Bearer abc''" "sample_headers ''Bearer xyz''"] rel look
  show ?thesis by (auto simp: lower_samples)
qed

section \<open>The recording's actions after stopRecording\<close>

text \<open>
  What the sort of stopRecording does give: the actions it pushes are in the order of
  their timestamps among themselves, and so is the whole recording when the engine's own
  buffer is empty at the stop.
\<close>

lemma recorded_stamps:
  "map (a_timestamp \<circ> (\<lambda>(i, action). to_recorded start (uuids i) action)) (enumerate n xs) =
     map (\<lambda>a. pa_timestamp a - start) xs"
  by (induction xs arbitrary: n) (simp_all add: to_recorded_def)

lemma sorted_shift: "sorted (map f xs) \<Longrightarrow> sorted (map (\<lambda>a. f a - (c::int)) xs)"
  by (induction xs) auto

lemma stopRecording_page_actions_sorted:
  "rec_actions (stopRecording uuids now pageUrl frames eng) = eng_actions eng @ pushed \<Longrightarrow>
     sorted (map a_timestamp pushed)"
  by (auto simp: stopRecording_def Let_def recorded_stamps intro!: sorted_shift)

lemma stopRecording_sorted_when_buffer_empty:
  "eng_actions eng = [] \<Longrightarrow>
     sorted (map a_timestamp (rec_actions (stopRecording uuids now pageUrl frames eng)))"
  by (auto simp: stopRecording_def Let_def recorded_stamps intro!: sorted_shift)

text \<open>
  C1. The claim is that the actions of the recording are in the order of their
  timestamps. The drained page actions are sorted among themselves and appended to the
  engine's buffer, which is not sorted with them: a session started at time 1000, a click
  in the page at 1100 and a navigation of the main frame within the document at 1500
  give a recording whose navigate action (timestamp 500) comes before the click
  (timestamp 100).
\<close>

theorem stopRecording_actions_unsorted:
  "map a_timestamp (rec_actions (stopRecording sample_uuids 2000 ''https://dex.example/#/swap''
     [Some [page_click ''#max-btn'' ''MAX'' 1100]]
     (framenavigated ''nav-0'' 1500 ''https://dex.example/#/swap'' (startRecording 1000)))) =
   [500, 100]"
  by code_simp

section \<open>The summary of an empty recording\<close>

lemma extractEnhancedApiPatterns_Nil: "extractEnhancedApiPatterns absolute [] = Inr []"
  by (simp add: extractEnhancedApiPatterns_def)

text \<open>
  C2. The claim is that the compression ratio of a recording without actions is a fixed
  sentinel and never NaN. The code divides 0 by 0 and prints the result: the ratio of an
  empty recording is the string \<^verbatim>\<open>NaN%\<close>, in place of the \<^verbatim>\<open>0%\<close> the constructor
  had set.
\<close>

theorem optimize_empty_recording_ratio:
  "optimize absolute
     \<lparr>rec_url = u, rec_duration = d, rec_actions = [], rec_networkRequests = []\<rparr> =
   Inr \<lparr>od_swapFlow = [], od_apiEndpoints = [], od_essentialSelectors = Map.empty,
        od_summary =
          \<lparr>originalActions = 0, optimizedActions = 0, summary_duplicatesRemoved = 0,
           compressionRatio = ''NaN%'', swapDetected = False\<rparr>\<rparr>"
  by (simp add: optimize_def extractEnhancedApiPatterns_Nil removeDuplicates_def dedup_init_def
      extractEnhancedSwapFlow_def flow_scan_def sort_flow_def renumber_def
      extractEssentialSelectors_def calculateComprehensiveSummary_def js_divide_def
      summary_init_def enumerate_eq_zip)

section \<open>The selector of the swap button\<close>

text \<open>
  C5. The claim is that the first action that matches a role binds it for good. Only
  \<^verbatim>\<open>amountInput\<close> is guarded by \<^verbatim>\<open>has\<close>; the other roles are set again by every later
  match: of two clicks on buttons labelled Swap, the second one's selector is the one
  left under \<^verbatim>\<open>swapButton\<close>.
\<close>

theorem extractEssentialSelectors_last_swap_button:
  "extractEssentialSelectors (uniqueActions (removeDuplicates
     [click_on (Some ''#swap-top'') ''Swap'' 1000,
      click_on (Some ''#swap-confirm'') ''Swap'' 9000])) ''swapButton'' =
   Some ''#swap-confirm''"
  by code_simp

section \<open>Amount inputs in the swap flow\<close>

text \<open>
  C6. The claim is that an amount input within 2000 ms after a pending INPUT_AMOUNT step
  updates that step. The code looks at the first INPUT_AMOUNT step of the flow with an
  earlier timestamp (\<^verbatim>\<open>find\<close>), not at the latest: with inputs at 0, 3000 and 4500 ms
  the third one is 1500 ms after the step of the second, and becomes a third step.
\<close>

theorem extractEnhancedSwapFlow_third_input_new_step:
  "map (\<lambda>s. (s_action s, s_value s, s_timestamp s))
     (extractEnhancedSwapFlow (uniqueActions (removeDuplicates
        [amount_input ''#amount'' ''1'' 0 (Some (plain_element None)),
         amount_input ''#amount'' ''12'' 3000 (Some (plain_element None)),
         amount_input ''#amount'' ''125'' 4500 (Some (plain_element None))]))) =
   [(INPUT_AMOUNT, Some ''1'', Some 0), (INPUT_AMOUNT, Some ''12'', Some 3000),
    (INPUT_AMOUNT, Some ''125'', Some 4500)]"
  by code_simp

section \<open>The endpoints of extractEnhancedApiPatterns\<close>

lemma normalizeUrl_Inr: "\<exists>n. normalizeUrl absolute url = Inr n"
  using split_nonempty [of "CHR ''?''" url]
  by (auto simp: normalizeUrl_def split: option.splits list.splits)

lemma api_inv_weaken: "api_inv absolute R m \<Longrightarrow> api_inv absolute (insert r R) m"
  unfolding api_inv_def by fastforce

lemma api_inv_snoc:
  assumes "api_inv absolute R m" and "k \<notin> fst ` set m" and "k = endpoint_key e"
    and "\<exists>r \<in> R. e_method e = r_method r \<and> normalizeUrl absolute (r_url r) = Inr (e_url e)"
  shows "api_inv absolute R (m @ [(k, e)])"
  using assms unfolding api_inv_def by auto

lemma api_step_inv:
  assumes "api_inv absolute R m"
  shows "\<exists>m'. api_step absolute m r = Inr m' \<and> api_inv absolute (insert r R) m'"
proof -
  obtain n where n: "normalizeUrl absolute (r_url r) = Inr n"
    using normalizeUrl_Inr by blast
  define k where "k = r_method r @ ''_'' @ n"
  define e where "e = \<lparr>e_url = n, e_method = r_method r,
      e_purpose = determineEnhancedApiPurpose (r_url r),
      e_params = extractParams absolute (r_url r),
      e_headers = sanitizeHeaders (r_headers r),
      e_responsePattern = extractResponsePattern r\<rparr>"
  have weak: "api_inv absolute (insert r R) m"
    using assms by (rule api_inv_weaken)
  show ?thesis
  proof (cases "map_of m k")
    case None
    then have fresh: "k \<notin> fst ` set m"
      by (simp add: map_of_eq_None_iff)
    have step: "api_step absolute m r = Inr (m @ [(k, e)])"
      using n None by (simp add: api_step_def Let_def k_def e_def)
    have "k = endpoint_key e"
      by (simp add: k_def e_def endpoint_key_def)
    moreover have "\<exists>r' \<in> insert r R. e_method e = r_method r' \<and>
        normalizeUrl absolute (r_url r') = Inr (e_url e)"
      using n by (simp add: e_def)
    ultimately have "api_inv absolute (insert r R) (m @ [(k, e)])"
      using weak fresh by (intro api_inv_snoc)
    with step show ?thesis by simp
  next
    case (Some e')
    then have "api_step absolute m r = Inr m"
      using n by (simp add: api_step_def Let_def k_def)
    with weak show ?thesis by simp
  qed
qed

lemma api_loop_inv:
  "api_inv absolute R m \<Longrightarrow>
     \<exists>m'. api_loop absolute m rs = Inr m' \<and> api_inv absolute (R \<union> set rs) m'"
proof (induction rs arbitrary: m R)
  case Nil
  then show ?case by simp
next
  case (Cons r rs)
  obtain m1 where m1: "api_step absolute m r = Inr m1" "api_inv absolute (insert r R) m1"
    using api_step_inv [OF Cons.prems] by blast
  from Cons.IH [OF m1(2)] m1(1) show ?case by simp
qed

lemma api_inv_distinct:
  assumes "api_inv absolute R m"
  shows "distinct (map (\<lambda>e. (e_method e, e_url e)) (map snd m))"
proof -
  have keys: "map fst m = map endpoint_key (map snd m)"
    using assms unfolding api_inv_def by (induction m) auto
  have "distinct (map endpoint_key (map snd m))"
    using assms keys unfolding api_inv_def by simp
  then have "distinct (map snd m) \<and> inj_on endpoint_key (set (map snd m))"
    by (rule distinct_map [THEN iffD1])
  then have d: "distinct (map snd m)" and inj: "inj_on endpoint_key (set (map snd m))"
    by blast+
  have "inj_on (\<lambda>e. (e_method e, e_url e)) (set (map snd m))"
  proof (rule inj_onI)
    fix x y
    assume "x \<in> set (map snd m)" "y \<in> set (map snd m)"
      and "(e_method x, e_url x) = (e_method y, e_url y)"
    then have "endpoint_key x = endpoint_key y"
      by (simp add: endpoint_key_def)
    with inj \<open>x \<in> set (map snd m)\<close> \<open>y \<in> set (map snd m)\<close> show "x = y"
      by (meson inj_onD)
  qed
  with d have "distinct (map snd m) \<and>
      inj_on (\<lambda>e. (e_method e, e_url e)) (set (map snd m))"
    by blast
  then show ?thesis by (rule distinct_map [THEN iffD2])
qed

lemma api_inv_Nil: "api_inv absolute {} []"
  by (simp add: api_inv_def)

lemma extract_general:
  "\<exists>endpoints. extractEnhancedApiPatterns absolute requests = Inr endpoints \<and>
       distinct (map (\<lambda>e. (e_method e, e_url e)) endpoints) \<and>
       (\<forall>e \<in> set endpoints. \<exists>r \<in> set requests.
          e_method e = r_method r \<and> normalizeUrl absolute (r_url r) = Inr (e_url e))"
proof -
  obtain m where m: "api_loop absolute [] requests = Inr m" "api_inv absolute (set requests) m"
    using api_loop_inv [OF api_inv_Nil, of absolute requests] by auto
  have "distinct (map (\<lambda>e. (e_method e, e_url e)) (map snd m))"
    using m(2) by (rule api_inv_distinct)
  moreover have "\<forall>e \<in> set (map snd m). \<exists>r \<in> set requests.
          e_method e = r_method r \<and> normalizeUrl absolute (r_url r) = Inr (e_url e)"
    using m(2) unfolding api_inv_def by fastforce
  ultimately show ?thesis
    using m(1) by (simp add: extractEnhancedApiPatterns_def)
qed

lemma quote_purpose:
  "determineEnhancedApiPurpose ''https://x/api/quote?x=1'' = Purpose_quote"
  by code_simp

lemma quote_normalized:
  assumes "absolute url = Some urlObj" and "origin urlObj = ''https://x''"
    and "pathname urlObj = ''/api/quote''" and "CHR '':'' \<in> set url"
  shows "normalizeUrl absolute url = Inr ''https://x/api/quote''"
  using assms by (simp add: normalizeUrl_def URL_new_def)

lemma quote_collapse:
  assumes p1: "\<exists>urlObj. absolute ''https://x/api/quote?x=1'' = Some urlObj \<and>
             origin urlObj = ''https://x'' \<and> pathname urlObj = ''/api/quote''"
    and p2: "\<exists>urlObj. absolute ''https://x/api/quote?y=2'' = Some urlObj \<and>
             origin urlObj = ''https://x'' \<and> pathname urlObj = ''/api/quote''"
    and r1: "r_url r1 = ''https://x/api/quote?x=1''" "r_method r1 = ''GET''"
    and r2: "r_url r2 = ''https://x/api/quote?y=2''" "r_method r2 = ''GET''"
  shows "\<exists>e. extractEnhancedApiPatterns absolute [r1, r2] = Inr [e] \<and> e_method e = ''GET'' \<and>
             e_url e = ''https://x/api/quote'' \<and> e_purpose e = Purpose_quote"
proof -
  have n1: "normalizeUrl absolute (r_url r1) = Inr ''https://x/api/quote''"
    using p1 r1(1) by (auto intro: quote_normalized)
  have n2: "normalizeUrl absolute (r_url r2) = Inr ''https://x/api/quote''"
    using p2 r2(1) by (auto intro: quote_normalized)
  have pu: "determineEnhancedApiPurpose (r_url r1) = Purpose_quote"
    using quote_purpose r1(1) by simp
  show ?thesis
    by (simp add: extractEnhancedApiPatterns_def api_step_def n1 n2 pu r1(2) r2(2))
qed

text \<open>
  C7. For every list of requests, whatever the platform parser does: the extraction
  returns a table (no exception), no two of its entries have the same method and
  normalized url, and every entry has the method of a request and the url normalizeUrl
  gives for it. And when the parser reports origin \<^verbatim>\<open>https://x\<close> and pathname
  \<^verbatim>\<open>/api/quote\<close> for the two urls, the two GET requests make one endpoint, with
  purpose quote.
\<close>

theorem apiEndpoints_unique:
  "(\<exists>endpoints. extractEnhancedApiPatterns absolute requests = Inr endpoints \<and>
       distinct (map (\<lambda>e. (e_method e, e_url e)) endpoints) \<and>
       (\<forall>e \<in> set endpoints. \<exists>r \<in> set requests.
          e_method e = r_method r \<and> normalizeUrl absolute (r_url r) = Inr (e_url e))) \<and>
   ((\<forall>url \<in> {''https://x/api/quote?x=1'', ''https://x/api/quote?y=2''}.
        \<exists>urlObj. absolute url = Some urlObj \<and>
          origin urlObj = ''https://x'' \<and> pathname urlObj = ''/api/quote'') \<and>
     r_url r1 = ''https://x/api/quote?x=1'' \<and> r_method r1 = ''GET'' \<and>
     r_url r2 = ''https://x/api/quote?y=2'' \<and> r_method r2 = ''GET'' \<longrightarrow>
     (\<exists>e. extractEnhancedApiPatterns absolute [r1, r2] = Inr [e] \<and> e_method e = ''GET'' \<and>
          e_url e = ''https://x/api/quote'' \<and> e_purpose e = Purpose_quote))"
proof (intro conjI impI)
  show "\<exists>endpoints. extractEnhancedApiPatterns absolute requests = Inr endpoints \<and>
       distinct (map (\<lambda>e. (e_method e, e_url e)) endpoints) \<and>
       (\<forall>e \<in> set endpoints. \<exists>r \<in> set requests.
          e_method e = r_method r \<and> normalizeUrl absolute (r_url r) = Inr (e_url e))"
    by (rule extract_general)
next
  assume h: "(\<forall>url \<in> {''https://x/api/quote?x=1'', ''https://x/api/quote?y=2''}.
        \<exists>urlObj. absolute url = Some urlObj \<and>
          origin urlObj = ''https://x'' \<and> pathname urlObj = ''/api/quote'') \<and>
     r_url r1 = ''https://x/api/quote?x=1'' \<and> r_method r1 = ''GET'' \<and>
     r_url r2 = ''https://x/api/quote?y=2'' \<and> r_method r2 = ''GET''"
  then have "\<exists>urlObj. absolute ''https://x/api/quote?x=1'' = Some urlObj \<and>
             origin urlObj = ''https://x'' \<and> pathname urlObj = ''/api/quote''"
    and "\<exists>urlObj. absolute ''https://x/api/quote?y=2'' = Some urlObj \<and>
             origin urlObj = ''https://x'' \<and> pathname urlObj = ''/api/quote''"
    by blast+
  with h show "\<exists>e. extractEnhancedApiPatterns absolute [r1, r2] = Inr [e] \<and> e_method e = ''GET'' \<and>
          e_url e = ''https://x/api/quote'' \<and> e_purpose e = Purpose_quote"
    by (intro quote_collapse) blast+
qed

lemma sample_parser_quote:
  "sample_parser ''https://x/api/quote?x=1'' =
     Some \<lparr>origin = ''https://x'', pathname = ''/api/quote'', searchParams = [(''x'', ''1'')]\<rparr>"
  "sample_parser ''https://x/api/quote?y=2'' =
     Some \<lparr>origin = ''https://x'', pathname = ''/api/quote'', searchParams = [(''y'', ''2'')]\<rparr>"
  by code_simp+

theorem apiEndpoints_unique_witness:
  "\<exists>e. extractEnhancedApiPatterns sample_parser [quote_request ''x=1'', quote_request ''y=2''] =
          Inr [e] \<and>
        e_method e = ''GET'' \<and> e_url e = ''https://x/api/quote'' \<and> e_purpose e = Purpose_quote"
proof -
  have "\<forall>url \<in> {''https://x/api/quote?x=1'', ''https://x/api/quote?y=2''}.
        \<exists>urlObj. sample_parser url = Some urlObj \<and>
          origin urlObj = ''https://x'' \<and> pathname urlObj = ''/api/quote''"
    by (simp add: sample_parser_quote)
  moreover have "r_url (quote_request ''x=1'') = ''https://x/api/quote?x=1''"
    "r_method (quote_request ''x=1'') = ''GET''"
    "r_url (quote_request ''y=2'') = ''https://x/api/quote?y=2''"
    "r_method (quote_request ''y=2'') = ''GET''"
    by (simp_all add: quote_request_def)
  ultimately show ?thesis
    using apiEndpoints_unique [of sample_parser "[]" "quote_request ''x=1''" "quote_request ''y=2''"]
    by blast
qed

section \<open>The worked example of the optimizer\<close>

















end
